theory Spec2Isabelle
  imports Main "HOL-Library.AList"
begin

section \<open>Errors and strings\<close>

text \<open>
  The exceptions of \<^verbatim>\<open>task.py\<close> are values. A Python \<^verbatim>\<open>str\<close> is modelled as a
  \<^typ>\<open>string\<close>, one \<^typ>\<open>char\<close> per code point below 256; among these code points the
  regular expression class \<^verbatim>\<open>\d\<close> matches the ten ASCII digits and nothing else.
  A bare \<^verbatim>\<open>raise ValueError\<close> carries the empty message.
\<close>

datatype error =
    ValueError string
  | KeyError
  | IndexError
  | AttributeError string
  | OverflowError string
  | EOFError

definition is_digit :: "char \<Rightarrow> bool" where
  "is_digit c = (c \<in> set ''0123456789'')"

definition newline :: char where
  "newline = CHR 0x0A"

section \<open>Field values\<close>

text \<open>
  \<^verbatim>\<open>Name.__init__\<close>: an empty (or absent) name raises \<^verbatim>\<open>ValueError\<close>.
\<close>

definition Name :: "string \<Rightarrow> error + string" where
  "Name name = (if name = [] then Inl (ValueError []) else Inr name)"

text \<open>
  \<^verbatim>\<open>re.match('^\d{10}$', phone)\<close>: ten digits from the start of the string, and then
  \<^verbatim>\<open>$\<close>, which Python matches at the end of the string and also just before a newline
  that is the last character of the string.
\<close>

definition re_match_phone :: "string \<Rightarrow> bool" where
  "re_match_phone phone =
     (length (take 10 phone) = 10 \<and> list_all is_digit (take 10 phone) \<and>
      (drop 10 phone = [] \<or> drop 10 phone = [newline]))"

definition Phone :: "string \<Rightarrow> error + string" where
  "Phone phone =
     (let is_phone = re_match_phone phone
      in if \<not> is_phone then Inl (ValueError []) else Inr phone)"

text \<open>The shape the specification gives a phone: exactly ten ASCII digits.\<close>

definition ten_ascii_digits :: "string \<Rightarrow> bool" where
  "ten_ascii_digits p = (length p = 10 \<and> list_all is_digit p)"

section \<open>Dates\<close>

text \<open>
  The part of Python's \<^verbatim>\<open>datetime\<close> module that \<^verbatim>\<open>task.py\<close> calls, after the module's
  reference implementation: a \<^verbatim>\<open>date\<close> is a year, a month and a day, a \<^verbatim>\<open>datetime\<close> is a
  \<^verbatim>\<open>date\<close> with a time of day, the constructors check their fields, and days are counted
  by the proleptic Gregorian ordinal (1 for 1 January of year 1).
\<close>

record date =
  year :: int
  month :: int
  day :: int

record datetime = date +
  hour :: int
  minute :: int
  second :: int
  microsecond :: int

definition MINYEAR :: int where "MINYEAR = 1"
definition MAXYEAR :: int where "MAXYEAR = 9999"
definition MAXORDINAL :: int where "MAXORDINAL = 3652059"

definition is_leap :: "int \<Rightarrow> bool" where
  "is_leap y = (y mod 4 = 0 \<and> (y mod 100 \<noteq> 0 \<or> y mod 400 = 0))"

definition days_before_year :: "int \<Rightarrow> int" where
  "days_before_year y = (y - 1) * 365 + (y - 1) div 4 - (y - 1) div 100 + (y - 1) div 400"

definition DAYS_IN_MONTH :: "int list" where
  "DAYS_IN_MONTH = [-1, 31, 28, 31, 30, 31, 30, 31, 31, 30, 31, 30, 31]"

definition DAYS_BEFORE_MONTH :: "int list" where
  "DAYS_BEFORE_MONTH = [-1, 0, 31, 59, 90, 120, 151, 181, 212, 243, 273, 304, 334]"

definition days_in_month :: "int \<Rightarrow> int \<Rightarrow> int" where
  "days_in_month y m = (if m = 2 \<and> is_leap y then 29 else DAYS_IN_MONTH ! nat m)"

definition days_before_month :: "int \<Rightarrow> int \<Rightarrow> int" where
  "days_before_month y m =
     DAYS_BEFORE_MONTH ! nat m + (if m > 2 \<and> is_leap y then 1 else 0)"

definition ymd2ord :: "int \<Rightarrow> int \<Rightarrow> int \<Rightarrow> int" where
  "ymd2ord y m d = days_before_year y + days_before_month y m + d"

text \<open>
  \<^verbatim>\<open>_ord2ymd\<close>: the date of an ordinal, by counting whole 400-year, 100-year, 4-year
  and 1-year cycles, then estimating the month as \<^verbatim>\<open>(n + 50) >> 5\<close> and correcting the
  estimate when it is one too large.
\<close>

definition ord2ymd :: "int \<Rightarrow> date" where
  "ord2ymd n0 =
     (let n = n0 - 1;
          n400 = n div 146097; n = n mod 146097;
          n100 = n div 36524; n = n mod 36524;
          n4 = n div 1461; n = n mod 1461;
          n1 = n div 365; n = n mod 365;
          y = n400 * 400 + 1 + n100 * 100 + n4 * 4 + n1
      in if n1 = 4 \<or> n100 = 4 then \<lparr>year = y - 1, month = 12, day = 31\<rparr>
         else
           let leapyear = (n1 = 3 \<and> (n4 \<noteq> 24 \<or> n100 = 3));
               m = (n + 50) div 32;
               preceding = DAYS_BEFORE_MONTH ! nat m + (if m > 2 \<and> leapyear then 1 else 0)
           in if preceding > n
              then let m' = m - 1;
                       preceding' = preceding -
                         (DAYS_IN_MONTH ! nat m' + (if m' = 2 \<and> leapyear then 1 else 0))
                   in \<lparr>year = y, month = m', day = n - preceding' + 1\<rparr>
              else \<lparr>year = y, month = m, day = n - preceding + 1\<rparr>)"

text \<open>Decimal numerals, as \<^verbatim>\<open>str\<close> and \<^verbatim>\<open>%d\<close> print them.\<close>

fun str_nat :: "nat \<Rightarrow> string" where
  "str_nat n =
     (if n < 10 then [''0123456789'' ! n]
      else str_nat (n div 10) @ [''0123456789'' ! (n mod 10)])"

declare str_nat.simps [simp del]

definition str_int :: "int \<Rightarrow> string" where
  "str_int i = (if i < 0 then CHR ''-'' # str_nat (nat (- i)) else str_nat (nat i))"

definition zfill :: "nat \<Rightarrow> string \<Rightarrow> string" where
  "zfill w s = replicate (w - length s) CHR ''0'' @ s"

text \<open>
  The field check of the \<^verbatim>\<open>date\<close> and \<^verbatim>\<open>datetime\<close> constructors; the time fields that
  \<^verbatim>\<open>task.py\<close> ever passes are zero, so only the date fields can fail.
\<close>

definition check_date_fields :: "int \<Rightarrow> int \<Rightarrow> int \<Rightarrow> error + unit" where
  "check_date_fields y m d =
     (if \<not> (MINYEAR \<le> y \<and> y \<le> MAXYEAR)
        then Inl (ValueError (''year '' @ str_int y @ '' is out of range''))
      else if \<not> (1 \<le> m \<and> m \<le> 12) then Inl (ValueError ''month must be in 1..12'')
      else if \<not> (1 \<le> d \<and> d \<le> days_in_month y m)
        then Inl (ValueError ''day is out of range for month'')
      else Inr ())"

definition valid_date :: "'a date_scheme \<Rightarrow> bool" where
  "valid_date d = (check_date_fields (year d) (month d) (day d) = Inr ())"

text \<open>\<^verbatim>\<open>datetime.replace(year=y)\<close> builds a new \<^verbatim>\<open>datetime\<close>, checking its fields.\<close>

definition replace_year :: "datetime \<Rightarrow> int \<Rightarrow> error + datetime" where
  "replace_year dt y =
     (case check_date_fields y (month dt) (day dt) of
        Inl e \<Rightarrow> Inl e
      | Inr _ \<Rightarrow> Inr (dt\<lparr>year := y\<rparr>))"

text \<open>\<^verbatim>\<open>datetime.date()\<close>: the date part.\<close>

definition date_of :: "datetime \<Rightarrow> date" where
  "date_of dt = \<lparr>year = year dt, month = month dt, day = day dt\<rparr>"

text \<open>Dates compare as the tuples (year, month, day).\<close>

definition date_lt :: "date \<Rightarrow> date \<Rightarrow> bool" where
  "date_lt a b =
     (year a < year b \<or> (year a = year b \<and>
        (month a < month b \<or> (month a = month b \<and> day a < day b))))"

definition toordinal :: "date \<Rightarrow> int" where
  "toordinal d = ymd2ord (year d) (month d) (day d)"

text \<open>\<^verbatim>\<open>(a - b).days\<close> for two dates.\<close>

definition days_between :: "date \<Rightarrow> date \<Rightarrow> int" where
  "days_between a b = toordinal a - toordinal b"

text \<open>\<^verbatim>\<open>date.weekday()\<close>: Monday is 0 and Sunday is 6.\<close>

definition weekday :: "date \<Rightarrow> int" where
  "weekday d = (toordinal d + 6) mod 7"

text \<open>\<^verbatim>\<open>date + timedelta(n)\<close>.\<close>

definition date_add :: "date \<Rightarrow> int \<Rightarrow> error + date" where
  "date_add d n =
     (let o' = toordinal d + n
      in if 0 < o' \<and> o' \<le> MAXORDINAL then Inr (ord2ymd o')
         else Inl (OverflowError ''date value out of range''))"

text \<open>
  \<^verbatim>\<open>strftime("%d.%m.%Y")\<close>: day and month zero-padded to two digits, the year to four
  (as the library documents \<^verbatim>\<open>%Y\<close>; C libraries differ on years below 1000 only).
\<close>

definition strftime :: "'a date_scheme \<Rightarrow> string" where
  "strftime d =
     zfill 2 (str_int (day d)) @ ''.'' @ zfill 2 (str_int (month d)) @ ''.'' @
     zfill 4 (str_int (year d))"

subsection \<open>Parsing a date\<close>

text \<open>
  \<^verbatim>\<open>datetime.strptime(s, "%d.%m.%Y")\<close> compiles the format to the regular expression
  \<^verbatim>\<open>(?P<d>3[0-1]|[1-2]\d|0[1-9]|[1-9]| [1-9])\.(?P<m>1[0-2]|0[1-9]|[1-9])\.(?P<Y>\d\d\d\d)\<close>,
  matches it at the start of the string, and refuses data left over after the match.
  A matcher returns the ways it can match a prefix, as (matched text, rest), in the order
  in which the regular expression engine tries them; the match found is the first way
  through the whole expression.
\<close>

type_synonym matcher = "string \<Rightarrow> (string \<times> string) list"

definition one :: "string \<Rightarrow> matcher" where
  "one cs s = (case s of c # rest \<Rightarrow> if c \<in> set cs then [([c], rest)] else [] | [] \<Rightarrow> [])"

definition two :: "string \<Rightarrow> string \<Rightarrow> matcher" where
  "two cs1 cs2 s =
     (case s of
        c1 # c2 # rest \<Rightarrow> if c1 \<in> set cs1 \<and> c2 \<in> set cs2 then [([c1, c2], rest)] else []
      | _ \<Rightarrow> [])"

definition re_d :: matcher where
  "re_d s = two ''3'' ''01'' s @ two ''12'' ''0123456789'' s @ two ''0'' ''123456789'' s @
            one ''123456789'' s @ two '' '' ''123456789'' s"

definition re_m :: matcher where
  "re_m s = two ''1'' ''012'' s @ two ''0'' ''123456789'' s @ one ''123456789'' s"

definition re_Y :: matcher where
  "re_Y s =
     (case s of
        c1 # c2 # c3 # c4 # rest \<Rightarrow>
          if is_digit c1 \<and> is_digit c2 \<and> is_digit c3 \<and> is_digit c4
          then [([c1, c2, c3, c4], rest)] else []
      | _ \<Rightarrow> [])"

definition re_dmY :: "string \<Rightarrow> (string \<times> string \<times> string \<times> string) list" where
  "re_dmY s =
     concat (map (\<lambda>(d, r1).
       concat (map (\<lambda>(_, r2).
         concat (map (\<lambda>(m, r3).
           concat (map (\<lambda>(_, r4).
             map (\<lambda>(Y, r5). (d, m, Y, r5)) (re_Y r4))
           (one ''.'' r3)))
         (re_m r2)))
       (one ''.'' r1)))
     (re_d s))"

text \<open>\<^verbatim>\<open>int(group)\<close> on a matched group: digits, after an optional blank.\<close>

definition digit_value :: "char \<Rightarrow> int" where
  "digit_value c = of_char c - 48"

definition int_of_group :: "string \<Rightarrow> int" where
  "int_of_group g =
     foldl (\<lambda>acc c. 10 * acc + digit_value c) 0 (dropWhile (\<lambda>c. c = CHR '' '') g)"

definition strptime :: "string \<Rightarrow> error + datetime" where
  "strptime s =
     (case re_dmY s of
        [] \<Rightarrow> Inl (ValueError ''time data does not match format'')
      | (d, m, Y, rest) # _ \<Rightarrow>
          if rest \<noteq> [] then Inl (ValueError (''unconverted data remains: '' @ rest))
          else
            let y = int_of_group Y; mo = int_of_group m; dy = int_of_group d
            in case check_date_fields y mo dy of
                 Inl e \<Rightarrow> Inl e
               | Inr _ \<Rightarrow> Inr \<lparr>year = y, month = mo, day = dy,
                               hour = 0, minute = 0, second = 0, microsecond = 0\<rparr>)"

text \<open>
  \<^verbatim>\<open>Birthday.__init__\<close>: every \<^verbatim>\<open>ValueError\<close> of the parse is raised again with the
  message of the class; the value kept is the \<^verbatim>\<open>datetime\<close> that \<^verbatim>\<open>strptime\<close> returned.
\<close>

definition Birthday :: "string \<Rightarrow> error + datetime" where
  "Birthday birthday =
     (case strptime birthday of
        Inl (ValueError _) \<Rightarrow> Inl (ValueError ''Invalid date format. Use DD.MM.YYYY'')
      | Inl e \<Rightarrow> Inl e
      | Inr v \<Rightarrow> Inr v)"

section \<open>Record\<close>

record Record =
  name :: string
  phones :: "string list"
  birthday :: "datetime option"

definition new_Record :: "string \<Rightarrow> error + Record" where
  "new_Record nm =
     (case Name nm of
        Inl e \<Rightarrow> Inl e
      | Inr n \<Rightarrow> Inr \<lparr>name = n, phones = [], birthday = None\<rparr>)"

text \<open>The loop of \<^verbatim>\<open>add_phone\<close>: is some stored phone equal to the given one?\<close>

fun has_phone :: "string list \<Rightarrow> string \<Rightarrow> bool" where
  "has_phone [] phone = False"
| "has_phone (ph # phs) phone = (if ph = phone then True else has_phone phs phone)"

definition add_phone :: "Record \<Rightarrow> string \<Rightarrow> error + Record" where
  "add_phone r phone =
     (if has_phone (phones r) phone then Inr r
      else case Phone phone of
             Inl e \<Rightarrow> Inl e
           | Inr p \<Rightarrow> Inr (r\<lparr>phones := phones r @ [p]\<rparr>))"

text \<open>\<^verbatim>\<open>remove_phone\<close>: the first phone with the given value is removed.\<close>

fun remove_loop :: "string list \<Rightarrow> string \<Rightarrow> error + string list" where
  "remove_loop [] phone = Inl (ValueError [])"
| "remove_loop (ph # phs) phone =
     (if ph = phone then Inr phs
      else case remove_loop phs phone of
             Inl e \<Rightarrow> Inl e
           | Inr phs' \<Rightarrow> Inr (ph # phs'))"

definition remove_phone :: "Record \<Rightarrow> string \<Rightarrow> error + Record" where
  "remove_phone r phone =
     (case remove_loop (phones r) phone of
        Inl e \<Rightarrow> Inl e
      | Inr phs \<Rightarrow> Inr (r\<lparr>phones := phs\<rparr>))"

text \<open>
  \<^verbatim>\<open>edit_phone\<close>: the value of the first phone equal to \<^verbatim>\<open>old_phone\<close> is overwritten
  with \<^verbatim>\<open>new_phone\<close>; no \<^verbatim>\<open>Phone\<close> is constructed, so nothing is validated.
\<close>

fun edit_loop :: "string list \<Rightarrow> string \<Rightarrow> string \<Rightarrow> error + string list" where
  "edit_loop [] old_phone new_phone = Inl (ValueError [])"
| "edit_loop (ph # phs) old_phone new_phone =
     (if ph = old_phone then Inr (new_phone # phs)
      else case edit_loop phs old_phone new_phone of
             Inl e \<Rightarrow> Inl e
           | Inr phs' \<Rightarrow> Inr (ph # phs'))"

definition edit_phone :: "Record \<Rightarrow> string \<Rightarrow> string \<Rightarrow> error + Record" where
  "edit_phone r old_phone new_phone =
     (case edit_loop (phones r) old_phone new_phone of
        Inl e \<Rightarrow> Inl e
      | Inr phs \<Rightarrow> Inr (r\<lparr>phones := phs\<rparr>))"

fun find_loop :: "string list \<Rightarrow> string \<Rightarrow> error + string" where
  "find_loop [] phone = Inl (ValueError [])"
| "find_loop (ph # phs) phone = (if ph = phone then Inr ph else find_loop phs phone)"

definition find_phone :: "Record \<Rightarrow> string \<Rightarrow> error + string" where
  "find_phone r phone = find_loop (phones r) phone"

text \<open>\<^verbatim>\<open>add_birthday\<close> replaces the birthday by a newly constructed one.\<close>

definition Record_add_birthday :: "Record \<Rightarrow> string \<Rightarrow> error + Record" where
  "Record_add_birthday r b =
     (case Birthday b of
        Inl e \<Rightarrow> Inl e
      | Inr v \<Rightarrow> Inr (r\<lparr>birthday := Some v\<rparr>))"

section \<open>AddressBook\<close>

text \<open>
  The book is a Python \<^verbatim>\<open>dict\<close> from names to records: keys in insertion order, a
  store to an existing key keeps its place. Association lists with
  \<^const>\<open>AList.update\<close> behave so. The mapping that \<^verbatim>\<open>get_upcoming_birthdays\<close> returns is a
  \<^verbatim>\<open>dict\<close> from names to formatted dates, modelled the same way.
\<close>

type_synonym AddressBook = "(string \<times> Record) list"

definition add_record :: "AddressBook \<Rightarrow> Record \<Rightarrow> AddressBook" where
  "add_record book r = AList.update (name r) r book"

definition find_record :: "AddressBook \<Rightarrow> string \<Rightarrow> Record option" where
  "find_record book nm = map_of book nm"

definition delete :: "AddressBook \<Rightarrow> string \<Rightarrow> error + AddressBook" where
  "delete book nm =
     (if nm \<in> set (map fst book) then Inr (AList.delete nm book) else Inl KeyError)"

text \<open>
  Lines 105 to 109 of \<^verbatim>\<open>get_upcoming_birthdays\<close>: the birthday moved to the year of
  \<^verbatim>\<open>today\<close>, and to the year after when that date is before \<^verbatim>\<open>today\<close>. Each
  \<^verbatim>\<open>replace\<close> can raise.
\<close>

definition candidate :: "date \<Rightarrow> datetime \<Rightarrow> error + date" where
  "candidate today bv =
     (case replace_year bv (year today) of
        Inl e \<Rightarrow> Inl e
      | Inr dt \<Rightarrow>
          if date_lt (date_of dt) today
          then (case replace_year bv (year today + 1) of
                  Inl e \<Rightarrow> Inl e
                | Inr dt' \<Rightarrow> Inr (date_of dt'))
          else Inr (date_of dt))"

text \<open>
  Lines 112 to 125: nothing for a date more than \<^verbatim>\<open>check_period\<close> days away, else the
  text stored under the name: the date itself on weekdays 0 to 4, two days later on
  weekday 5, one day later on weekday 6.
\<close>

definition check_period :: int where
  "check_period = 7"

definition congratulation :: "date \<Rightarrow> date \<Rightarrow> error + string option" where
  "congratulation today b =
     (if days_between b today > check_period then Inr None
      else if weekday b < 5 then Inr (Some (strftime b))
      else if weekday b = 5
        then (case date_add b 2 of Inl e \<Rightarrow> Inl e | Inr d \<Rightarrow> Inr (Some (strftime d)))
      else if weekday b = 6
        then (case date_add b 1 of Inl e \<Rightarrow> Inl e | Inr d \<Rightarrow> Inr (Some (strftime d)))
      else Inr None)"

text \<open>
  The loop over the names of the book. The book is threaded through as the state of the
  object; the loop reads it (\<^verbatim>\<open>self.find(name)\<close>) and stores only into \<^verbatim>\<open>bdays\<close>.
  A name without a record would make \<^verbatim>\<open>record.birthday\<close> an attribute access on
  \<^verbatim>\<open>None\<close>.
\<close>

fun upcoming_loop ::
  "date \<Rightarrow> string list \<Rightarrow> AddressBook \<Rightarrow> (string \<times> string) list \<Rightarrow>
   (error + (string \<times> string) list) \<times> AddressBook" where
  "upcoming_loop today [] book bdays = (Inr bdays, book)"
| "upcoming_loop today (nm # names) book bdays =
     (case find_record book nm of
        None \<Rightarrow> (Inl (AttributeError ''birthday''), book)
      | Some r \<Rightarrow>
          (case birthday r of
             None \<Rightarrow> upcoming_loop today names book bdays
           | Some bv \<Rightarrow>
               (case candidate today bv of
                  Inl e \<Rightarrow> (Inl e, book)
                | Inr b \<Rightarrow>
                    (case congratulation today b of
                       Inl e \<Rightarrow> (Inl e, book)
                     | Inr None \<Rightarrow> upcoming_loop today names book bdays
                     | Inr (Some text) \<Rightarrow>
                         upcoming_loop today names book (AList.update nm text bdays)))))"

definition get_upcoming_birthdays ::
  "date \<Rightarrow> AddressBook \<Rightarrow> (error + (string \<times> string) list) \<times> AddressBook" where
  "get_upcoming_birthdays today book = upcoming_loop today (map fst book) book []"



text \<open>
  The date of the scenarios of the specification, 10 January 2024, and a contact that has
  a name and a birthday (day, month, year) and no phone.
\<close>

definition scenario_today :: date where
  "scenario_today = \<lparr>year = 2024, month = 1, day = 10\<rparr>"

definition contact :: "string \<Rightarrow> int \<Rightarrow> int \<Rightarrow> int \<Rightarrow> string \<times> Record" where
  "contact nm d m y =
     (nm, \<lparr>name = nm, phones = [],
           birthday = Some \<lparr>year = y, month = m, day = d,
                            hour = 0, minute = 0, second = 0, microsecond = 0\<rparr>\<rparr>)"

text \<open>
  The words of the specification about birthdays. \<open>DD_MM_YYYY\<close>: two digits, a dot, two
  digits, a dot, four digits. The texts that \<^verbatim>\<open>strptime\<close> takes for a day (one or two
  digits, or a blank and a digit), for a month (one or two digits) and for a year (four
  digits), and the real calendar dates that \<^verbatim>\<open>date\<close> can hold.
\<close>

definition day_text :: "string \<Rightarrow> bool" where
  "day_text d =
     (case d of
        [c] \<Rightarrow> is_digit c
      | [c1, c2] \<Rightarrow> (is_digit c1 \<or> c1 = CHR '' '') \<and> is_digit c2
      | _ \<Rightarrow> False)"

definition month_text :: "string \<Rightarrow> bool" where
  "month_text m =
     (case m of
        [c] \<Rightarrow> is_digit c
      | [c1, c2] \<Rightarrow> is_digit c1 \<and> is_digit c2
      | _ \<Rightarrow> False)"

definition year_text :: "string \<Rightarrow> bool" where
  "year_text Y = (length Y = 4 \<and> list_all is_digit Y)"

definition DD_MM_YYYY :: "string \<Rightarrow> bool" where
  "DD_MM_YYYY s =
     (case s of
        [d1, d2, p1, m1, m2, p2, y1, y2, y3, y4] \<Rightarrow>
          list_all is_digit [d1, d2, m1, m2, y1, y2, y3, y4] \<and> p1 = CHR ''.'' \<and> p2 = CHR ''.''
      | _ \<Rightarrow> False)"

definition real_date :: "int \<Rightarrow> int \<Rightarrow> int \<Rightarrow> bool" where
  "real_date y m d =
     (1 \<le> y \<and> y \<le> 9999 \<and> 1 \<le> m \<and> m \<le> 12 \<and> 1 \<le> d \<and> d \<le> days_in_month y m)"

section \<open>The command layer\<close>

text \<open>
  The commands read and write the terminal and change the book, so they are functions on
  a state: the book, the date the clock shows, the lines still to be read from standard
  input, what was written to standard output (one entry per \<^verbatim>\<open>print\<close> and per prompt of
  \<^verbatim>\<open>input\<close>), and the book kept in the file on disk. An exception leaves the state as it was when
  it was raised.
\<close>

record world =
  address_book :: AddressBook
  clock :: date
  stdin :: "string list"
  stdout :: "string list"
  disk :: "AddressBook option"

definition print :: "string \<Rightarrow> world \<Rightarrow> world" where
  "print s w = w\<lparr>stdout := stdout w @ [s]\<rparr>"

text \<open>\<^verbatim>\<open>input(prompt)\<close> raises \<^verbatim>\<open>EOFError\<close> when no line is left.\<close>

definition input :: "string \<Rightarrow> world \<Rightarrow> (error + string) \<times> world" where
  "input prompt w =
     (case stdin w of
        [] \<Rightarrow> (Inl EOFError, print prompt w)
      | l # ls \<Rightarrow> (Inr l, (print prompt w)\<lparr>stdin := ls\<rparr>))"

text \<open>
  \<^verbatim>\<open>str.split()\<close>, \<^verbatim>\<open>str.strip()\<close> and \<^verbatim>\<open>str.lower()\<close> on code points below 256.
\<close>

definition is_space :: "char \<Rightarrow> bool" where
  "is_space c =
     (c \<in> set [CHR 0x09, CHR 0x0A, CHR 0x0B, CHR 0x0C, CHR 0x0D, CHR 0x1C, CHR 0x1D,
               CHR 0x1E, CHR 0x1F, CHR 0x20, CHR 0x85, CHR 0xA0])"

fun split_loop :: "string \<Rightarrow> string \<Rightarrow> string list" where
  "split_loop tok [] = (if tok = [] then [] else [tok])"
| "split_loop tok (c # cs) =
     (if is_space c then (if tok = [] then split_loop [] cs else tok # split_loop [] cs)
      else split_loop (tok @ [c]) cs)"

definition str_split :: "string \<Rightarrow> string list" where
  "str_split s = split_loop [] s"

definition strip :: "string \<Rightarrow> string" where
  "strip s = rev (dropWhile is_space (rev (dropWhile is_space s)))"

definition lower_char :: "char \<Rightarrow> char" where
  "lower_char c =
     (let n = (of_char c :: nat)
      in if (65 \<le> n \<and> n \<le> 90) \<or> (192 \<le> n \<and> n \<le> 222 \<and> n \<noteq> 215)
         then char_of (n + 32) else c)"

definition lower :: "string \<Rightarrow> string" where
  "lower s = map lower_char s"

fun str_join :: "string \<Rightarrow> string list \<Rightarrow> string" where
  "str_join sep [] = []"
| "str_join sep [x] = x"
| "str_join sep (x # y # ys) = x @ sep @ str_join sep (y # ys)"

text \<open>
  \<^verbatim>\<open>int(s)\<close>: blanks around, an optional sign, then digits, where single underscores may
  stand between digits.
\<close>

definition is_int_space :: "char \<Rightarrow> bool" where
  "is_int_space c =
     (c \<in> set [CHR 0x09, CHR 0x0A, CHR 0x0B, CHR 0x0C, CHR 0x0D, CHR 0x20, CHR 0x85, CHR 0xA0])"

fun int_digits :: "bool \<Rightarrow> string \<Rightarrow> bool" where
  "int_digits after_digit [] = after_digit"
| "int_digits after_digit (c # cs) =
     (if is_digit c then int_digits True cs
      else if c = CHR ''_'' \<and> after_digit then
        (case cs of [] \<Rightarrow> False | c' # _ \<Rightarrow> is_digit c' \<and> int_digits False cs)
      else False)"

definition py_int :: "string \<Rightarrow> error + int" where
  "py_int s =
     (let t = rev (dropWhile is_int_space (rev (dropWhile is_int_space s)));
          neg = (case t of c # _ \<Rightarrow> c = CHR ''-'' | [] \<Rightarrow> False);
          body = (case t of c # r \<Rightarrow> if c = CHR ''-'' \<or> c = CHR ''+'' then r else t | [] \<Rightarrow> t)
      in if int_digits False body
         then let v = foldl (\<lambda>acc c. 10 * acc + digit_value c) 0
                        (filter (\<lambda>c. c \<noteq> CHR ''_'') body)
              in Inr (if neg then - v else v)
         else Inl (ValueError ''invalid literal for int() with base 10''))"

text \<open>\<^verbatim>\<open>xs[key]\<close>: a negative key counts from the end.\<close>

definition getitem :: "'a list \<Rightarrow> int \<Rightarrow> error + 'a" where
  "getitem xs key =
     (let n = int (length xs); j = (if key < 0 then key + n else key)
      in if 0 \<le> j \<and> j < n then Inr (xs ! nat j) else Inl IndexError)"

text \<open>
  The decorator \<^verbatim>\<open>input_error\<close>: a \<^verbatim>\<open>KeyError\<close>, \<^verbatim>\<open>ValueError\<close> or \<^verbatim>\<open>IndexError\<close> of the
  decorated function becomes a message that is returned in place of the result (\<open>ret\<close>
  makes the message a value of the result's type); any other exception passes through.
\<close>

definition input_error ::
  "(string \<Rightarrow> 'a) \<Rightarrow> (error + 'a) \<times> world \<Rightarrow> (error + 'a) \<times> world" where
  "input_error ret res =
     (case fst res of
        Inl KeyError \<Rightarrow> (Inr (ret ''The contact exists''), snd res)
      | Inl (ValueError _) \<Rightarrow> (Inr (ret ''Please enter the correct arguments''), snd res)
      | Inl IndexError \<Rightarrow> (Inr (ret ''No such contacts''), snd res)
      | _ \<Rightarrow> res)"

text \<open>
  \<^verbatim>\<open>parse_input\<close> returns a tuple, or, through the decorator, a message string; the
  caller unpacks either into a first element and the rest.
\<close>

datatype parsed = Tuple "string list" | Str string

definition parse_input :: "string \<Rightarrow> world \<Rightarrow> (error + parsed) \<times> world" where
  "parse_input user_input w =
     input_error Str
       (case str_split user_input of
          [] \<Rightarrow> (Inl (ValueError ''not enough values to unpack''), w)
        | cmd # args \<Rightarrow> (Inr (Tuple (lower (strip cmd) # args)), w))"

definition unpack :: "parsed \<Rightarrow> error + string \<times> string list" where
  "unpack v =
     (case v of
        Tuple [] \<Rightarrow> Inl (ValueError ''not enough values to unpack'')
      | Tuple (c # args) \<Rightarrow> Inr (c, args)
      | Str [] \<Rightarrow> Inl (ValueError ''not enough values to unpack'')
      | Str (c # cs) \<Rightarrow> Inr ([c], map (\<lambda>x. [x]) cs))"

text \<open>The record found under a name is changed in place: it is stored back under it.\<close>

definition store :: "string \<Rightarrow> Record \<Rightarrow> world \<Rightarrow> world" where
  "store nm r w = w\<lparr>address_book := AList.update nm r (address_book w)\<rparr>"

definition add_contact_phone ::
  "string \<Rightarrow> Record \<Rightarrow> string \<Rightarrow> string \<Rightarrow> world \<Rightarrow> (error + string) \<times> world" where
  "add_contact_phone nm r phone message w =
     (if phone \<noteq> []
      then (case add_phone r phone of
              Inl e \<Rightarrow> (Inl e, w)
            | Inr r' \<Rightarrow> (Inr message, store nm r' w))
      else (Inr message, w))"

definition add_contact :: "string list \<Rightarrow> world \<Rightarrow> (error + string) \<times> world" where
  "add_contact args w =
     input_error (\<lambda>s. s)
       (case args of
          nm # phone # _ \<Rightarrow>
            (case find_record (address_book w) nm of
               None \<Rightarrow>
                 (case new_Record nm of
                    Inl e \<Rightarrow> (Inl e, w)
                  | Inr r \<Rightarrow>
                      add_contact_phone nm r phone ''Contact added.''
                        (w\<lparr>address_book := add_record (address_book w) r\<rparr>))
             | Some r \<Rightarrow> add_contact_phone nm r phone ''Contact updated.'' w)
        | _ \<Rightarrow> (Inl (ValueError ''not enough values to unpack''), w))"

definition change_phone ::
  "string \<Rightarrow> Record \<Rightarrow> string \<Rightarrow> string \<Rightarrow> world \<Rightarrow> (error + string) \<times> world" where
  "change_phone nm r phone new_phone w =
     (case edit_phone r phone new_phone of
        Inl e \<Rightarrow> (Inl e, w)
      | Inr r' \<Rightarrow>
          (Inr (''Contact updated successfully. Number '' @ phone @ '' was replaced with '' @
                new_phone @ ''.''),
           store nm r' w))"

fun print_phones :: "nat \<Rightarrow> string list \<Rightarrow> world \<Rightarrow> world" where
  "print_phones i [] w = w"
| "print_phones i (number # phs) w =
     print_phones (Suc i) phs (print (str_nat i @ '': '' @ number) w)"

definition change_contact :: "string list \<Rightarrow> world \<Rightarrow> (error + string) \<times> world" where
  "change_contact args w =
     input_error (\<lambda>s. s)
       (case args of
          [nm, new_phone] \<Rightarrow>
            (case find_record (address_book w) nm of
               Some r \<Rightarrow>
                 if length (phones r) = 1 then change_phone nm r (phones r ! 0) new_phone w
                 else if length (phones r) > 1 then
                   (let w1 = print (''The contact '' @ nm @ '' has following phones:'') w;
                        w2 = print_phones 0 (phones r) w1;
                        indexes = map str_nat [0 ..< length (phones r)];
                        msg = ''Choose the number of phone to edit ('' @
                              str_join '', '' indexes @ ''): ''
                    in case input msg w2 of
                         (Inl e, w3) \<Rightarrow> (Inl e, w3)
                       | (Inr line, w3) \<Rightarrow>
                           (case py_int line of
                              Inl e \<Rightarrow> (Inl e, w3)
                            | Inr key \<Rightarrow>
                                (case getitem (phones r) key of
                                   Inl e \<Rightarrow> (Inl e, w3)
                                 | Inr phone \<Rightarrow> change_phone nm r phone new_phone w3)))
                 else (Inr ''No phones to edit'', w)
             | None \<Rightarrow> (Inl KeyError, w))
        | _ \<Rightarrow> (Inl (ValueError []), w))"

definition phone_lines :: "Record \<Rightarrow> string" where
  "phone_lines r = concat (map (\<lambda>p. p @ [newline]) (phones r))"

definition show_contact :: "string list \<Rightarrow> world \<Rightarrow> (error + string) \<times> world" where
  "show_contact args w =
     input_error (\<lambda>s. s)
       (case args of
          [] \<Rightarrow> (Inl IndexError, w)
        | nm # _ \<Rightarrow>
            (case find_record (address_book w) nm of
               Some r \<Rightarrow>
                 (Inr (''The contact '' @ nm @ '' hase following phones:'' @ [newline] @
                       phone_lines r), w)
             | None \<Rightarrow> (Inl IndexError, w)))"

fun show_all_loop :: "string list \<Rightarrow> AddressBook \<Rightarrow> string \<Rightarrow> error + string" where
  "show_all_loop [] bk print_text = Inr print_text"
| "show_all_loop (nm # names) bk print_text =
     (case find_record bk nm of
        None \<Rightarrow> Inl KeyError
      | Some r \<Rightarrow> show_all_loop names bk (print_text @ nm @ '':'' @ [newline] @ phone_lines r))"

definition show_all :: "world \<Rightarrow> (error + string) \<times> world" where
  "show_all w =
     input_error (\<lambda>s. s)
       (if address_book w = [] then (Inl IndexError, w)
        else (show_all_loop (map fst (address_book w)) (address_book w) [], w))"

definition add_birthday :: "string list \<Rightarrow> world \<Rightarrow> (error + string) \<times> world" where
  "add_birthday args w =
     input_error (\<lambda>s. s)
       (case args of
          [nm, b] \<Rightarrow>
            (case find_record (address_book w) nm of
               Some r \<Rightarrow>
                 (case Record_add_birthday r b of
                    Inl e \<Rightarrow> (Inl e, w)
                  | Inr r' \<Rightarrow> (Inr ''Date of birth added.'', store nm r' w))
             | None \<Rightarrow> (Inl IndexError, w))
        | _ \<Rightarrow> (Inl (ValueError []), w))"

text \<open>
  \<^verbatim>\<open>show_birthday\<close> reads \<^verbatim>\<open>record.birthday.value\<close> without looking whether the record
  or its birthday is \<^verbatim>\<open>None\<close>; the \<^verbatim>\<open>AttributeError\<close> names the attribute that was read.
\<close>

definition show_birthday :: "string list \<Rightarrow> world \<Rightarrow> (error + string) \<times> world" where
  "show_birthday args w =
     input_error (\<lambda>s. s)
       (case args of
          [] \<Rightarrow> (Inl IndexError, w)
        | nm # _ \<Rightarrow>
            (case find_record (address_book w) nm of
               None \<Rightarrow> (Inl (AttributeError ''birthday''), w)
             | Some r \<Rightarrow>
                 (case birthday r of
                    None \<Rightarrow> (Inl (AttributeError ''value''), w)
                  | Some v \<Rightarrow> (Inr (strftime v), w))))"

definition birthdays :: "world \<Rightarrow> (error + string) \<times> world" where
  "birthdays w =
     input_error (\<lambda>s. s)
       (case get_upcoming_birthdays (clock w) (address_book w) of
          (Inl e, bk) \<Rightarrow> (Inl e, w\<lparr>address_book := bk\<rparr>)
        | (Inr bdays, bk) \<Rightarrow>
            if bdays = [] then (Inr ''No birthdays'', w\<lparr>address_book := bk\<rparr>)
            else (Inr (str_join [newline] (map (\<lambda>(nm, t). nm @ '': '' @ t) bdays)),
                  w\<lparr>address_book := bk\<rparr>))"

text \<open>
  Persistence: \<^verbatim>\<open>load_data\<close> gives the book of the file, or an empty book when there is
  no file; \<^verbatim>\<open>save_data\<close> writes the book. Failures of the file system are outside the model.
\<close>

definition load_data :: "world \<Rightarrow> AddressBook" where
  "load_data w = (case disk w of None \<Rightarrow> [] | Some bk \<Rightarrow> bk)"

definition save_data :: "world \<Rightarrow> world" where
  "save_data w = w\<lparr>disk := Some (address_book w)\<rparr>"

text \<open>
  One turn of the loop of \<^verbatim>\<open>main\<close>: \<open>Inr True\<close> to go on, \<open>Inr False\<close> after
  \<^verbatim>\<open>break\<close>, \<open>Inl\<close> for an exception that nothing caught, which ends the process.
\<close>

definition print_result :: "(error + string) \<times> world \<Rightarrow> (error + bool) \<times> world" where
  "print_result res =
     (case fst res of
        Inl e \<Rightarrow> (Inl e, snd res)
      | Inr text \<Rightarrow> (Inr True, print text (snd res)))"

definition main_step :: "world \<Rightarrow> (error + bool) \<times> world" where
  "main_step w =
     (case input ''Enter a command: '' w of
        (Inl e, w1) \<Rightarrow> (Inl e, w1)
      | (Inr user_input, w1) \<Rightarrow>
          (case parse_input user_input w1 of
             (Inl e, w2) \<Rightarrow> (Inl e, w2)
           | (Inr v, w2) \<Rightarrow>
               (case unpack v of
                  Inl e \<Rightarrow> (Inl e, w2)
                | Inr (command, args) \<Rightarrow>
                    if command \<in> set [''close'', ''exit'']
                      then (Inr False, save_data (print ''Good bye!'' w2))
                    else if command = ''hello''
                      then (Inr True, print ''How can I help you?'' w2)
                    else if command = ''add'' then print_result (add_contact args w2)
                    else if command = ''change'' then print_result (change_contact args w2)
                    else if command = ''phone'' then print_result (show_contact args w2)
                    else if command = ''all'' then print_result (show_all w2)
                    else if command = ''add-birthday'' then print_result (add_birthday args w2)
                    else if command = ''show-birthday''
                      then print_result (show_birthday args w2)
                    else if command = ''birthdays'' then print_result (birthdays w2)
                    else (Inr True, print ''Invalid command'' w2))))"

section \<open>Properties of the phone operations\<close>

lemma has_phone_set: "has_phone phs phone = (phone \<in> set phs)"
  by (induction phs) auto

lemma remove_loop_absent: "phone \<notin> set phs \<Longrightarrow> remove_loop phs phone = Inl (ValueError [])"
  by (induction phs) auto

lemma remove_loop_present: "phone \<in> set phs \<Longrightarrow> remove_loop phs phone = Inr (remove1 phone phs)"
  by (induction phs) auto

lemma edit_loop_absent:
  "old_phone \<notin> set phs \<Longrightarrow> edit_loop phs old_phone new_phone = Inl (ValueError [])"
  by (induction phs) auto

lemma edit_loop_present:
  "old_phone \<in> set phs \<Longrightarrow>
   \<exists>xs ys. phs = xs @ old_phone # ys \<and> old_phone \<notin> set xs \<and>
           edit_loop phs old_phone new_phone = Inr (xs @ new_phone # ys)"
proof (induction phs)
  case Nil
  then show ?case by simp
next
  case (Cons ph phs)
  show ?case
  proof (cases "ph = old_phone")
    case True
    then have "ph # phs = [] @ old_phone # phs \<and> old_phone \<notin> set [] \<and>
               edit_loop (ph # phs) old_phone new_phone = Inr ([] @ new_phone # phs)"
      by simp
    then show ?thesis by blast
  next
    case False
    with Cons.prems have "old_phone \<in> set phs" by simp
    from Cons.IH [OF this] obtain xs ys where
      h: "phs = xs @ old_phone # ys" "old_phone \<notin> set xs"
         "edit_loop phs old_phone new_phone = Inr (xs @ new_phone # ys)"
      by blast
    from h False have "ph # phs = (ph # xs) @ old_phone # ys \<and> old_phone \<notin> set (ph # xs) \<and>
               edit_loop (ph # phs) old_phone new_phone = Inr ((ph # xs) @ new_phone # ys)"
      by simp
    then show ?thesis by blast
  qed
qed

lemma find_loop_present: "phone \<in> set phs \<Longrightarrow> find_loop phs phone = Inr phone"
  by (induction phs) auto

lemma find_loop_absent: "phone \<notin> set phs \<Longrightarrow> find_loop phs phone = Inl (ValueError [])"
  by (induction phs) auto

lemma ten_ascii_digits_match: "ten_ascii_digits p \<Longrightarrow> re_match_phone p"
  by (simp add: ten_ascii_digits_def re_match_phone_def)

lemma Phone_accepts_ten_digits: "ten_ascii_digits p \<Longrightarrow> Phone p = Inr p"
  by (simp add: Phone_def ten_ascii_digits_match)

lemma Phone_result: "Phone p = Inr v \<Longrightarrow> v = p"
  by (simp add: Phone_def Let_def split: if_splits)

lemma Phone_accepts_iff:
  "(\<exists>v. Phone p = Inr v) \<longleftrightarrow> (ten_ascii_digits p \<or> (\<exists>q. ten_ascii_digits q \<and> p = q @ [newline]))"
proof
  assume "\<exists>v. Phone p = Inr v"
  then have m: "re_match_phone p"
    by (auto simp: Phone_def Let_def split: if_splits)
  then have t: "ten_ascii_digits (take 10 p)"
    by (simp add: re_match_phone_def ten_ascii_digits_def)
  from m have "drop 10 p = [] \<or> drop 10 p = [newline]"
    by (simp add: re_match_phone_def)
  then show "ten_ascii_digits p \<or> (\<exists>q. ten_ascii_digits q \<and> p = q @ [newline])"
  proof
    assume "drop 10 p = []"
    with t show ?thesis by simp
  next
    assume d: "drop 10 p = [newline]"
    have "p = take 10 p @ drop 10 p" by simp
    with d have "p = take 10 p @ [newline]" by simp
    with t show ?thesis by blast
  qed
next
  assume "ten_ascii_digits p \<or> (\<exists>q. ten_ascii_digits q \<and> p = q @ [newline])"
  then show "\<exists>v. Phone p = Inr v"
  proof
    assume "ten_ascii_digits p"
    then show ?thesis by (simp add: Phone_accepts_ten_digits)
  next
    assume "\<exists>q. ten_ascii_digits q \<and> p = q @ [newline]"
    then obtain q where q: "ten_ascii_digits q" "p = q @ [newline]" by blast
    then have "re_match_phone p"
      by (simp add: re_match_phone_def ten_ascii_digits_def)
    then show ?thesis by (simp add: Phone_def)
  qed
qed

lemma add_phone_distinct:
  "distinct (phones r) \<Longrightarrow> add_phone r phone = Inr r' \<Longrightarrow> distinct (phones r')"
  by (auto simp: add_phone_def has_phone_set dest: Phone_result split: if_splits sum.splits)

lemma remove_phone_distinct:
  "distinct (phones r) \<Longrightarrow> remove_phone r phone = Inr r' \<Longrightarrow> distinct (phones r')"
proof -
  assume d: "distinct (phones r)" and e: "remove_phone r phone = Inr r'"
  show "distinct (phones r')"
  proof (cases "phone \<in> set (phones r)")
    case True
    with e have "phones r' = remove1 phone (phones r)"
      by (auto simp: remove_phone_def remove_loop_present)
    with d show ?thesis by simp
  next
    case False
    with e show ?thesis by (simp add: remove_phone_def remove_loop_absent)
  qed
qed

lemma edit_loop_once:
  "count_list phs old_phone = 1 \<Longrightarrow>
   edit_loop phs old_phone new_phone =
     Inr (map (\<lambda>p. if p = old_phone then new_phone else p) phs)"
proof (induction phs)
  case Nil
  then show ?case by simp
next
  case (Cons ph phs)
  show ?case
  proof (cases "ph = old_phone")
    case True
    with Cons.prems have "count_list phs old_phone = 0" by simp
    then have "old_phone \<notin> set phs" by (simp add: count_list_0_iff)
    then have "map (\<lambda>p. if p = old_phone then new_phone else p) phs = phs"
      by (induction phs) auto
    with True show ?thesis by simp
  next
    case False
    with Cons.prems have "count_list phs old_phone = 1" by simp
    from Cons.IH [OF this] False show ?thesis by simp
  qed
qed

section \<open>Claims about Phone and Record\<close>

text \<open>
  C3. The claim: \<^verbatim>\<open>Phone\<close> construction succeeds, storing its argument, exactly for the
  strings made of ten ASCII digits and nothing else. The source tests
  \<^verbatim>\<open>re.match('^\d{10}$', phone)\<close>, and \<^verbatim>\<open>$\<close> also matches before a final newline: ten
  digits followed by one newline are accepted and stored with the newline, although that
  string is not ten ASCII digits.
\<close>

theorem Phone_accepts_trailing_newline:
  "Phone (''1234567890'' @ [newline]) = Inr (''1234567890'' @ [newline]) \<and>
   \<not> ten_ascii_digits (''1234567890'' @ [newline])"
  by (simp add: Phone_def re_match_phone_def ten_ascii_digits_def is_digit_def)

text \<open>
  C5. The claim: no record holds two equal phones, and \<^verbatim>\<open>add_phone\<close>, \<^verbatim>\<open>remove_phone\<close>
  and \<^verbatim>\<open>edit_phone\<close> keep it so. \<^verbatim>\<open>add_phone\<close> looks for the value before it appends and
  \<^verbatim>\<open>remove_phone\<close> only removes (lemmas \<open>add_phone_distinct\<close>, \<open>remove_phone_distinct\<close>),
  but \<^verbatim>\<open>edit_phone\<close> overwrites without looking: editing one phone into the value of
  another leaves that value twice.
\<close>

theorem edit_phone_duplicates:
  "distinct (phones \<lparr>name = ''John'', phones = [''1111111111'', ''2222222222''], birthday = None\<rparr>) \<and>
   edit_phone \<lparr>name = ''John'', phones = [''1111111111'', ''2222222222''], birthday = None\<rparr>
       ''1111111111'' ''2222222222''
     = Inr \<lparr>name = ''John'', phones = [''2222222222'', ''2222222222''], birthday = None\<rparr> \<and>
   \<not> distinct (phones \<lparr>name = ''John'', phones = [''2222222222'', ''2222222222''], birthday = None\<rparr>)"
  by (simp add: edit_phone_def)

text \<open>
  C6. When \<^verbatim>\<open>old_phone\<close> occurs exactly once among the phones and \<^verbatim>\<open>new_phone\<close> is a
  different value that does not occur, \<^verbatim>\<open>edit_phone\<close> succeeds for any \<^verbatim>\<open>new_phone\<close>
  whatever (it is never validated) and replaces that one phone; afterwards
  \<^verbatim>\<open>find_phone(new_phone)\<close> returns \<^verbatim>\<open>new_phone\<close> and \<^verbatim>\<open>find_phone(old_phone)\<close> fails.
  When \<^verbatim>\<open>old_phone\<close> does not occur, \<^verbatim>\<open>edit_phone\<close> fails. The failure by which the
  source reports a phone that is not found is a bare \<^verbatim>\<open>ValueError\<close>.
\<close>

theorem edit_phone_then_find:
  "(count_list (phones r) old_phone = 1 \<and> new_phone \<noteq> old_phone \<and> new_phone \<notin> set (phones r) \<longrightarrow>
      (\<exists>r'. edit_phone r old_phone new_phone = Inr r' \<and>
            r' = r\<lparr>phones := map (\<lambda>p. if p = old_phone then new_phone else p) (phones r)\<rparr> \<and>
            find_phone r' new_phone = Inr new_phone \<and>
            find_phone r' old_phone = Inl (ValueError []))) \<and>
   (old_phone \<notin> set (phones r) \<longrightarrow> edit_phone r old_phone new_phone = Inl (ValueError []))"
proof (intro conjI impI)
  assume h: "count_list (phones r) old_phone = 1 \<and> new_phone \<noteq> old_phone \<and> new_phone \<notin> set (phones r)"
  let ?phs = "map (\<lambda>p. if p = old_phone then new_phone else p) (phones r)"
  from h have occurs: "old_phone \<in> set (phones r)"
    by (metis count_list_0_iff zero_neq_one)
  from h have e: "edit_phone r old_phone new_phone = Inr (r\<lparr>phones := ?phs\<rparr>)"
    by (simp add: edit_phone_def edit_loop_once)
  from occurs have "new_phone \<in> set ?phs" by force
  then have f1: "find_phone (r\<lparr>phones := ?phs\<rparr>) new_phone = Inr new_phone"
    by (simp add: find_phone_def find_loop_present)
  from h have "old_phone \<notin> set ?phs" by auto
  then have f2: "find_phone (r\<lparr>phones := ?phs\<rparr>) old_phone = Inl (ValueError [])"
    by (simp add: find_phone_def find_loop_absent)
  from e f1 f2
  show "\<exists>r'. edit_phone r old_phone new_phone = Inr r' \<and> r' = r\<lparr>phones := ?phs\<rparr> \<and>
          find_phone r' new_phone = Inr new_phone \<and> find_phone r' old_phone = Inl (ValueError [])"
    by simp
next
  assume "old_phone \<notin> set (phones r)"
  then show "edit_phone r old_phone new_phone = Inl (ValueError [])"
    by (simp add: edit_phone_def edit_loop_absent)
qed

theorem edit_phone_then_find_witness:
  "edit_phone \<lparr>name = ''John'', phones = [''1111111111'', ''2222222222''], birthday = None\<rparr>
       ''2222222222'' ''abc''
     = Inr \<lparr>name = ''John'', phones = [''1111111111'', ''abc''], birthday = None\<rparr> \<and>
   find_phone \<lparr>name = ''John'', phones = [''1111111111'', ''abc''], birthday = None\<rparr> ''abc''
     = Inr ''abc'' \<and>
   find_phone \<lparr>name = ''John'', phones = [''1111111111'', ''abc''], birthday = None\<rparr> ''2222222222''
     = Inl (ValueError []) \<and>
   edit_phone \<lparr>name = ''John'', phones = [''1111111111''], birthday = None\<rparr>
       ''2222222222'' ''abc''
     = Inl (ValueError [])"
  using edit_phone_then_find
          [of "\<lparr>name = ''John'', phones = [''1111111111'', ''2222222222''], birthday = None\<rparr>"
              "''2222222222''" "''abc''"]
        edit_phone_then_find
          [of "\<lparr>name = ''John'', phones = [''1111111111''], birthday = None\<rparr>"
              "''2222222222''" "''abc''"]
  by simp

text \<open>
  C7. \<^verbatim>\<open>add_phone\<close> of a value already among the phones returns without touching the
  record and without failing (it never reaches the \<^verbatim>\<open>Phone\<close> constructor); a string of
  ten ASCII digits that is not present is appended at the end, after the phones already
  there; and when the value is not present and \<^verbatim>\<open>Phone\<close> construction fails, that failure
  is the failure of \<^verbatim>\<open>add_phone\<close>.
\<close>

theorem add_phone_idempotent:
  "(phone \<in> set (phones r) \<longrightarrow> add_phone r phone = Inr r) \<and>
   (phone \<notin> set (phones r) \<and> ten_ascii_digits phone \<longrightarrow>
      add_phone r phone = Inr (r\<lparr>phones := phones r @ [phone]\<rparr>)) \<and>
   (phone \<notin> set (phones r) \<and> Phone phone = Inl e \<longrightarrow> add_phone r phone = Inl e)"
  by (simp add: add_phone_def has_phone_set Phone_accepts_ten_digits)

theorem add_phone_idempotent_witness:
  "add_phone \<lparr>name = ''John'', phones = [''1111111111'', ''abc''], birthday = None\<rparr> ''abc''
     = Inr \<lparr>name = ''John'', phones = [''1111111111'', ''abc''], birthday = None\<rparr> \<and>
   add_phone \<lparr>name = ''John'', phones = [''1111111111''], birthday = None\<rparr> ''2222222222''
     = Inr \<lparr>name = ''John'', phones = [''1111111111'', ''2222222222''], birthday = None\<rparr> \<and>
   Phone ''12345'' = Inl (ValueError []) \<and>
   add_phone \<lparr>name = ''John'', phones = [''1111111111''], birthday = None\<rparr> ''12345''
     = Inl (ValueError [])"
proof -
  have p: "Phone ''12345'' = Inl (ValueError [])"
    by (simp add: Phone_def re_match_phone_def)
  have t: "ten_ascii_digits ''2222222222''"
    by (simp add: ten_ascii_digits_def is_digit_def)
  show ?thesis
    using p t
      add_phone_idempotent
        [of "''abc''" "\<lparr>name = ''John'', phones = [''1111111111'', ''abc''], birthday = None\<rparr>"]
      add_phone_idempotent
        [of "''2222222222''" "\<lparr>name = ''John'', phones = [''1111111111''], birthday = None\<rparr>"]
      add_phone_idempotent
        [of "''12345''" "\<lparr>name = ''John'', phones = [''1111111111''], birthday = None\<rparr>"
            "ValueError []"]
    by simp
qed

section \<open>The loop over the book\<close>

lemmas calendar_defs =
  check_date_fields_def MINYEAR_def MAXYEAR_def MAXORDINAL_def days_in_month_def
  DAYS_IN_MONTH_def DAYS_BEFORE_MONTH_def is_leap_def days_before_year_def
  days_before_month_def ymd2ord_def toordinal_def weekday_def days_between_def date_lt_def
  date_of_def replace_year_def date_add_def ord2ymd_def strftime_def zfill_def str_int_def
  str_nat.simps Let_def

lemmas upcoming_defs =
  get_upcoming_birthdays_def find_record_def candidate_def congratulation_def check_period_def
  scenario_today_def contact_def

lemma upcoming_loop_book: "snd (upcoming_loop today names book bdays) = book"
  by (induction names arbitrary: bdays) (auto split: option.splits sum.splits)






lemma upcoming_loop_returns:
  "upcoming_loop today names book acc = (Inr bdays, book') \<Longrightarrow> n \<in> set names \<Longrightarrow>
   find_record book n = Some r \<Longrightarrow> birthday r = Some bv \<Longrightarrow> \<exists>b. candidate today bv = Inr b"
proof (induction names arbitrary: acc)
  case Nil
  then show ?case by simp
next
  case (Cons nm names)
  show ?case
  proof (cases "nm = n")
    case True
    with Cons.prems show ?thesis by (auto split: sum.splits)
  next
    case False
    with Cons.prems have n: "n \<in> set names" by simp
    from Cons.prems(1) obtain acc' where "upcoming_loop today names book acc' = (Inr bdays, book')"
      by (auto split: option.splits sum.splits)
    from Cons.IH [OF this n Cons.prems(3) Cons.prems(4)] show ?thesis .
  qed
qed



lemma find_record_key: "find_record book nm = Some r \<Longrightarrow> nm \<in> set (map fst book)"
  by (auto simp: find_record_def dest!: map_of_SomeD intro: rev_image_eqI)



lemma leap_candidate_raises:
  assumes "month bv = 2" and "day bv = 29"
    and "\<not> is_leap (year today) \<or> date_lt \<lparr>year = year today, month = 2, day = 29\<rparr> today"
  shows "\<exists>e. candidate today bv = Inl e"
proof (cases "is_leap (year today)")
  case False
  with assms(1,2) have "\<exists>e. replace_year bv (year today) = Inl e"
    by (simp add: replace_year_def check_date_fields_def days_in_month_def DAYS_IN_MONTH_def)
  then show ?thesis by (auto simp: candidate_def)
next
  case True
  with assms(3) have lt: "date_lt \<lparr>year = year today, month = 2, day = 29\<rparr> today" by simp
  from True have "year today mod 4 = 0" by (simp add: is_leap_def)
  then have "(year today + 1) mod 4 \<noteq> 0" by presburger
  then have "\<not> is_leap (year today + 1)" by (simp add: is_leap_def)
  with assms(1,2) have n: "\<exists>e. replace_year bv (year today + 1) = Inl e"
    by (simp add: replace_year_def check_date_fields_def days_in_month_def DAYS_IN_MONTH_def)
  show ?thesis
  proof (cases "replace_year bv (year today)")
    case (Inl e)
    then show ?thesis by (simp add: candidate_def)
  next
    case (Inr dt)
    then have "dt = bv\<lparr>year := year today\<rparr>"
      by (auto simp: replace_year_def split: sum.splits)
    with assms(1,2) have "date_of dt = \<lparr>year = year today, month = 2, day = 29\<rparr>"
      by (simp add: date_of_def)
    with lt Inr n show ?thesis by (auto simp: candidate_def)
  qed
qed

lemma upcoming_loop_raises:
  "n \<in> set names \<Longrightarrow> find_record book n = Some r \<Longrightarrow> birthday r = Some bv \<Longrightarrow>
   candidate today bv = Inl e \<Longrightarrow> \<exists>e'. fst (upcoming_loop today names book acc) = Inl e'"
proof (induction names arbitrary: acc)
  case Nil
  then show ?case by simp
next
  case (Cons nm names)
  show ?case
  proof (cases "nm = n")
    case True
    with Cons.prems show ?thesis by simp
  next
    case False
    with Cons.prems have "n \<in> set names" by simp
    from Cons.IH [OF this Cons.prems(2) Cons.prems(3) Cons.prems(4)]
    show ?thesis by (auto split: option.splits sum.splits)
  qed
qed

section \<open>Claims about the upcoming birthdays\<close>





text \<open>
  C9. A record whose birthday is 29 February makes \<^verbatim>\<open>get_upcoming_birthdays\<close> raise
  instead of returning a mapping, whenever the year the birthday is moved to is not a leap
  year: the year of today when that is not a leap year, and the year after when it is a
  leap year and 29 February has passed. Nothing in the method catches the error of
  \<^verbatim>\<open>replace\<close>.
\<close>

theorem leap_day_birthday_raises:
  "find_record book nm = Some r \<Longrightarrow> birthday r = Some bv \<Longrightarrow> month bv = 2 \<Longrightarrow> day bv = 29 \<Longrightarrow>
   \<not> is_leap (year today) \<or> date_lt \<lparr>year = year today, month = 2, day = 29\<rparr> today \<Longrightarrow>
   \<exists>e. fst (get_upcoming_birthdays today book) = Inl e"
proof -
  assume r: "find_record book nm = Some r" and bv: "birthday r = Some bv"
    and m: "month bv = 2" and d: "day bv = 29"
    and y: "\<not> is_leap (year today) \<or> date_lt \<lparr>year = year today, month = 2, day = 29\<rparr> today"
  from leap_candidate_raises [OF m d y] obtain e where e: "candidate today bv = Inl e" by blast
  from r have k: "nm \<in> set (map fst book)" by (rule find_record_key)
  from upcoming_loop_raises [OF k r bv e] show ?thesis
    by (simp add: get_upcoming_birthdays_def)
qed

theorem leap_day_birthday_raises_witness:
  "find_record [contact ''Leap'' 29 2 2000] ''Leap'' = Some (snd (contact ''Leap'' 29 2 2000)) \<and>
   birthday (snd (contact ''Leap'' 29 2 2000))
     = Some \<lparr>year = 2000, month = 2, day = 29,
              hour = 0, minute = 0, second = 0, microsecond = 0\<rparr> \<and>
   \<not> is_leap 2023 \<and>
   (\<exists>e. fst (get_upcoming_birthdays \<lparr>year = 2023, month = 1, day = 10\<rparr>
               [contact ''Leap'' 29 2 2000]) = Inl e) \<and>
   fst (get_upcoming_birthdays \<lparr>year = 2023, month = 1, day = 10\<rparr> [contact ''Leap'' 29 2 2000])
     = Inl (ValueError ''day is out of range for month'') \<and>
   is_leap 2024 \<and>
   date_lt \<lparr>year = 2024, month = 2, day = 29\<rparr> \<lparr>year = 2024, month = 3, day = 1\<rparr> \<and>
   (\<exists>e. fst (get_upcoming_birthdays \<lparr>year = 2024, month = 3, day = 1\<rparr>
               [contact ''Leap'' 29 2 2000]) = Inl e)"
proof -
  let ?bv = "\<lparr>year = 2000, month = 2, day = 29,
              hour = 0, minute = 0, second = 0, microsecond = 0\<rparr>"
  have f: "find_record [contact ''Leap'' 29 2 2000] ''Leap'' = Some (snd (contact ''Leap'' 29 2 2000))"
    by (simp add: find_record_def contact_def)
  have b: "birthday (snd (contact ''Leap'' 29 2 2000)) = Some ?bv"
    by (simp add: contact_def)
  have m: "month ?bv = 2" and d: "day ?bv = 29" by simp_all
  have n: "\<not> is_leap 2023" and l: "is_leap 2024" by (simp_all add: is_leap_def)
  have lt: "date_lt \<lparr>year = 2024, month = 2, day = 29\<rparr> \<lparr>year = 2024, month = 3, day = 1\<rparr>"
    by (simp add: date_lt_def)
  have y1: "\<not> is_leap (year \<lparr>year = 2023, month = 1, day = 10\<rparr>) \<or>
            date_lt \<lparr>year = year \<lparr>year = 2023, month = 1, day = 10\<rparr>, month = 2, day = 29\<rparr>
                    \<lparr>year = 2023, month = 1, day = 10\<rparr>"
    using n by simp
  have y2: "\<not> is_leap (year \<lparr>year = 2024, month = 3, day = 1\<rparr>) \<or>
            date_lt \<lparr>year = year \<lparr>year = 2024, month = 3, day = 1\<rparr>, month = 2, day = 29\<rparr>
                    \<lparr>year = 2024, month = 3, day = 1\<rparr>"
    using lt by simp
  have v: "fst (get_upcoming_birthdays \<lparr>year = 2023, month = 1, day = 10\<rparr>
                  [contact ''Leap'' 29 2 2000])
           = Inl (ValueError ''day is out of range for month'')"
    by (simp add: upcoming_defs calendar_defs)
  from leap_day_birthday_raises [OF f b m d y1] leap_day_birthday_raises [OF f b m d y2]
       f b n l lt v
  show ?thesis by simp
qed

text \<open>
  C10. \<^verbatim>\<open>get_upcoming_birthdays\<close> leaves the book as it found it: the names, and the
  name, phones and birthday of every record, are the same after the call, whether it
  returns a mapping or raises.
\<close>

theorem get_upcoming_birthdays_pure:
  "snd (get_upcoming_birthdays today book) = book"
  by (simp add: get_upcoming_birthdays_def upcoming_loop_book)

section \<open>Parsing a birthday\<close>







lemma digit_cases:
  "is_digit c \<Longrightarrow>
   c = CHR ''0'' \<or> c = CHR ''1'' \<or> c = CHR ''2'' \<or> c = CHR ''3'' \<or> c = CHR ''4'' \<or>
   c = CHR ''5'' \<or> c = CHR ''6'' \<or> c = CHR ''7'' \<or> c = CHR ''8'' \<or> c = CHR ''9''"
  by (simp add: is_digit_def)

lemma digit_value_range: "is_digit c \<Longrightarrow> 0 \<le> digit_value c \<and> digit_value c \<le> 9"
  by (auto dest!: digit_cases simp: digit_value_def)

lemma re_d_first:
  assumes "day_text d" and "1 \<le> int_of_group d" and "int_of_group d \<le> 31"
    and F: "\<And>t c x. c \<noteq> CHR ''.'' \<Longrightarrow> F t (c # x) = []"
  shows "concat (map (\<lambda>(t, r1). F t r1) (re_d (d @ CHR ''.'' # r))) = F d (CHR ''.'' # r)"
proof -
  from assms(1) consider
    (single) c where "d = [c]" "is_digit c"
    | (blank) c where "d = [CHR '' '', c]" "is_digit c"
    | (double) c1 c2 where "d = [c1, c2]" "is_digit c1" "is_digit c2"
    by (auto simp: day_text_def split: list.splits)
  then show ?thesis
  proof cases
    case single
    from single(2) assms(2) show ?thesis unfolding single(1)
      by (auto dest!: digit_cases simp: re_d_def one_def two_def int_of_group_def digit_value_def)
  next
    case blank
    from blank(2) assms(2) show ?thesis unfolding blank(1)
      by (auto dest!: digit_cases simp: re_d_def one_def two_def int_of_group_def digit_value_def)
  next
    case double
    from double(2) show ?thesis
    proof (elim digit_cases [THEN disjE] disjE)
    qed (insert double(3) assms(2,3), unfold double(1),
         auto dest!: digit_cases simp: re_d_def one_def two_def int_of_group_def digit_value_def F)
  qed
qed

lemma re_m_first:
  assumes "month_text m" and "1 \<le> int_of_group m" and "int_of_group m \<le> 12"
    and F: "\<And>t c x. c \<noteq> CHR ''.'' \<Longrightarrow> F t (c # x) = []"
  shows "concat (map (\<lambda>(t, r1). F t r1) (re_m (m @ CHR ''.'' # r))) = F m (CHR ''.'' # r)"
proof -
  from assms(1) consider
    (single) c where "m = [c]" "is_digit c"
    | (double) c1 c2 where "m = [c1, c2]" "is_digit c1" "is_digit c2"
    by (auto simp: month_text_def split: list.splits)
  then show ?thesis
  proof cases
    case single
    from single(2) assms(2) show ?thesis unfolding single(1)
      by (auto dest!: digit_cases simp: re_m_def one_def two_def int_of_group_def digit_value_def)
  next
    case double
    from double(2) show ?thesis
    proof (elim digit_cases [THEN disjE] disjE)
    qed (insert double(3) assms(2,3), unfold double(1),
         auto dest!: digit_cases simp: re_m_def one_def two_def int_of_group_def digit_value_def F)
  qed
qed

lemma re_Y_first: "year_text Y \<Longrightarrow> re_Y (Y @ r) = [(Y, r)]"
proof -
  assume y: "year_text Y"
  then obtain c1 c2 c3 c4 where "Y = [c1, c2, c3, c4]"
    by (auto simp: year_text_def length_Suc_conv numeral_eq_Suc)
  with y show ?thesis by (simp add: re_Y_def year_text_def)
qed

lemma re_dmY_first:
  assumes "day_text d" "1 \<le> int_of_group d" "int_of_group d \<le> 31"
    and "month_text m" "1 \<le> int_of_group m" "int_of_group m \<le> 12"
    and "year_text Y"
  shows "re_dmY (d @ ''.'' @ m @ ''.'' @ Y @ r) = [(d, m, Y, r)]"
proof -
  let ?G = "\<lambda>d m r3. concat (map (\<lambda>(_, r4). map (\<lambda>(Y, r5). (d, m, Y, r5)) (re_Y r4))
                               (one ''.'' r3))"
  let ?F = "\<lambda>d r1. concat (map (\<lambda>(_, r2). concat (map (\<lambda>(m, r3). ?G d m r3) (re_m r2)))
                             (one ''.'' r1))"
  have G: "?G d m (c # x) = []" if "c \<noteq> CHR ''.''" for d m c x
    using that by (simp add: one_def)
  have F: "?F d (c # x) = []" if "c \<noteq> CHR ''.''" for d c x
    using that by (simp add: one_def)
  have "re_dmY (d @ ''.'' @ m @ ''.'' @ Y @ r)
        = concat (map (\<lambda>(t, r1). ?F t r1) (re_d (d @ CHR ''.'' # (m @ ''.'' @ Y @ r))))"
    by (simp add: re_dmY_def)
  also have "\<dots> = ?F d (CHR ''.'' # (m @ ''.'' @ Y @ r))"
    by (rule re_d_first [OF assms(1,2,3)]) (rule F)
  also have "\<dots> = concat (map (\<lambda>(t, r3). ?G d t r3) (re_m (m @ CHR ''.'' # (Y @ r))))"
    by (simp add: one_def)
  also have "\<dots> = ?G d m (CHR ''.'' # (Y @ r))"
    by (rule re_m_first [OF assms(4,5,6)]) (rule G)
  also have "\<dots> = [(d, m, Y, r)]"
    using assms(7) by (simp add: one_def re_Y_first)
  finally show ?thesis .
qed

lemma days_in_month_le: "1 \<le> m \<Longrightarrow> m \<le> 12 \<Longrightarrow> days_in_month y m \<le> 31"
proof -
  assume "1 \<le> m" "m \<le> 12"
  then have "m = 1 \<or> m = 2 \<or> m = 3 \<or> m = 4 \<or> m = 5 \<or> m = 6 \<or> m = 7 \<or> m = 8 \<or> m = 9 \<or>
             m = 10 \<or> m = 11 \<or> m = 12" by arith
  then show ?thesis by (auto simp: days_in_month_def DAYS_IN_MONTH_def)
qed

lemma check_date_fields_ok:
  "check_date_fields y m d = Inr () \<longleftrightarrow>
   1 \<le> y \<and> y \<le> 9999 \<and> 1 \<le> m \<and> m \<le> 12 \<and> 1 \<le> d \<and> d \<le> days_in_month y m"
  by (auto simp: check_date_fields_def MINYEAR_def MAXYEAR_def)

lemma strptime_accepts:
  assumes "day_text d" "month_text m" "year_text Y"
    and "check_date_fields (int_of_group Y) (int_of_group m) (int_of_group d) = Inr ()"
  shows "strptime (d @ ''.'' @ m @ ''.'' @ Y)
         = Inr \<lparr>year = int_of_group Y, month = int_of_group m, day = int_of_group d,
                hour = 0, minute = 0, second = 0, microsecond = 0\<rparr>"
proof -
  from assms(4) have b: "1 \<le> int_of_group m" "int_of_group m \<le> 12" "1 \<le> int_of_group d"
    "int_of_group d \<le> days_in_month (int_of_group Y) (int_of_group m)"
    by (simp_all add: check_date_fields_ok)
  from b days_in_month_le [of "int_of_group m" "int_of_group Y"]
  have d31: "int_of_group d \<le> 31" by simp
  from re_dmY_first [OF assms(1) b(3) d31 assms(2) b(1) b(2) assms(3), of "[]"]
  have "re_dmY (d @ ''.'' @ m @ ''.'' @ Y) = [(d, m, Y, [])]" by simp
  with assms(4) show ?thesis by (simp add: strptime_def)
qed



lemma Birthday_accepts:
  assumes "day_text d" "month_text m" "year_text Y"
    and "real_date (int_of_group Y) (int_of_group m) (int_of_group d)"
  shows "Birthday (d @ ''.'' @ m @ ''.'' @ Y)
         = Inr \<lparr>year = int_of_group Y, month = int_of_group m, day = int_of_group d,
                hour = 0, minute = 0, second = 0, microsecond = 0\<rparr>"
proof -
  from assms(4)
  have "check_date_fields (int_of_group Y) (int_of_group m) (int_of_group d) = Inr ()"
    by (simp add: check_date_fields_ok real_date_def)
  from strptime_accepts [OF assms(1,2,3) this] show ?thesis
    by (simp add: Birthday_def)
qed


lemma Birthday_accepts_DD_MM_YYYY:
  assumes "DD_MM_YYYY s"
    and "real_date (int_of_group (drop 6 s)) (int_of_group (take 2 (drop 3 s)))
           (int_of_group (take 2 s))"
  shows "Birthday s
         = Inr \<lparr>year = int_of_group (drop 6 s), month = int_of_group (take 2 (drop 3 s)),
                day = int_of_group (take 2 s),
                hour = 0, minute = 0, second = 0, microsecond = 0\<rparr>"
proof -
  from assms(1) obtain d1 d2 m1 m2 y1 y2 y3 y4 where
    s: "s = [d1, d2, CHR ''.'', m1, m2, CHR ''.'', y1, y2, y3, y4]"
    and dg: "is_digit d1" "is_digit d2" "is_digit m1" "is_digit m2"
            "is_digit y1" "is_digit y2" "is_digit y3" "is_digit y4"
    by (auto simp: DD_MM_YYYY_def split: list.splits)
  from dg have t: "day_text [d1, d2]" "month_text [m1, m2]" "year_text [y1, y2, y3, y4]"
    by (simp_all add: day_text_def month_text_def year_text_def)
  from assms(2) s
  have "real_date (int_of_group [y1, y2, y3, y4]) (int_of_group [m1, m2]) (int_of_group [d1, d2])"
    by simp
  from Birthday_accepts [OF t this] s show ?thesis by simp
qed


section \<open>Claims about Birthday\<close>




section \<open>When the upcoming birthdays are returned\<close>

text \<open>
  Every date that \<^verbatim>\<open>date\<close> can hold has an ordinal from 1 to \<open>MAXORDINAL\<close>, and the
  last of them, 31 December 9999, is a Friday: a Saturday or Sunday can always be moved to
  the next Monday. So the only exception of \<^verbatim>\<open>get_upcoming_birthdays\<close> is the
  \<^verbatim>\<open>ValueError\<close> of \<^verbatim>\<open>replace\<close>, and the method returns a mapping exactly when every
  birthday of the book can be moved to the year of today (and to the next year, when
  needed).
\<close>

lemma div_succ:
  fixes x k :: int
  assumes "1 < k"
  shows "(x + 1) div k = x div k + (if (x + 1) mod k = 0 then 1 else 0)"
proof -
  define q r where "q = x div k" and "r = x mod k"
  have x: "x = q * k + r" by (simp add: q_def r_def)
  have r: "0 \<le> r" "r < k" using assms by (simp_all add: r_def)
  show ?thesis
  proof (cases "r + 1 = k")
    case True
    with x have "x + 1 = (q + 1) * k" by (simp add: algebra_simps)
    then have "(x + 1) div k = q + 1" "(x + 1) mod k = 0" using assms by simp_all
    then show ?thesis by (simp add: q_def)
  next
    case False
    with r have s: "0 \<le> r + 1" "r + 1 < k" by simp_all
    from x have "x + 1 = q * k + (r + 1)" by simp
    then have "(x + 1) div k = q + (r + 1) div k" "(x + 1) mod k = (r + 1) mod k"
      using assms by (simp_all only: div_mult_self3 mod_mult_self3)
    with s have "(x + 1) div k = q" "(x + 1) mod k = r + 1"
      by (simp_all add: div_pos_pos_trivial mod_pos_pos_trivial)
    with r show ?thesis by (simp add: q_def)
  qed
qed

lemma mod_imp:
  fixes y :: int
  shows "y mod 400 = 0 \<Longrightarrow> y mod 100 = 0" and "y mod 100 = 0 \<Longrightarrow> y mod 4 = 0"
  using dvd_trans [of 100 400 y] dvd_trans [of 4 100 y] by (simp_all add: mod_eq_0_iff_dvd)

lemma leap_lin:
  fixes A B C y :: int
  assumes "p400 \<Longrightarrow> p100" and "p100 \<Longrightarrow> p4"
  shows "y * 365 + (A + (if p4 then 1 else 0)) - (B + (if p100 then 1 else 0))
           + (C + (if p400 then 1 else 0))
         = ((y - 1) * 365 + A - B + C) + (if p4 \<and> (\<not> p100 \<or> p400) then 366 else 365)"
  using assms by (cases p4; cases p100; cases p400) (simp_all add: algebra_simps)

lemma days_before_year_Suc:
  "days_before_year (y + 1) = days_before_year y + (if is_leap y then 366 else 365)"
proof -
  have e: "y - 1 + 1 = y" by simp
  have 4: "y div 4 = (y - 1) div 4 + (if y mod 4 = 0 then 1 else 0)"
    using div_succ [of 4 "y - 1"] by (simp only: e)
  have 100: "y div 100 = (y - 1) div 100 + (if y mod 100 = 0 then 1 else 0)"
    using div_succ [of 100 "y - 1"] by (simp only: e)
  have 400: "y div 400 = (y - 1) div 400 + (if y mod 400 = 0 then 1 else 0)"
    using div_succ [of 400 "y - 1"] by (simp only: e)
  have "days_before_year (y + 1) = y * 365 + y div 4 - y div 100 + y div 400"
    by (simp add: days_before_year_def)
  also have "\<dots> = y * 365 + ((y - 1) div 4 + (if y mod 4 = 0 then 1 else 0))
                     - ((y - 1) div 100 + (if y mod 100 = 0 then 1 else 0))
                     + ((y - 1) div 400 + (if y mod 400 = 0 then 1 else 0))"
    by (simp only: 4 [symmetric] 100 [symmetric] 400 [symmetric])
  also have "\<dots> = ((y - 1) * 365 + (y - 1) div 4 - (y - 1) div 100 + (y - 1) div 400)
                    + (if y mod 4 = 0 \<and> (\<not> y mod 100 = 0 \<or> y mod 400 = 0) then 366 else 365)"
    by (rule leap_lin) (erule mod_imp(1), erule mod_imp(2))
  finally show ?thesis by (simp only: days_before_year_def is_leap_def)
qed

lemma div_step: "0 \<le> k \<Longrightarrow> ((x::int) + k) div 100 \<le> x div 100 + k"
proof -
  assume "0 \<le> k"
  then have "x + k \<le> x + k * 100" by simp
  then have "(x + k) div 100 \<le> (x + k * 100) div 100" by (rule zdiv_mono1) simp
  then show ?thesis by simp
qed

lemma days_before_year_mono: "a \<le> b \<Longrightarrow> days_before_year a \<le> days_before_year b"
proof -
  assume ab: "a \<le> b"
  have lin: "(a - 1) * 365 + p - q + r \<le> (b - 1) * 365 + p' - q' + r'"
    if "p \<le> p'" "r \<le> r'" "q' \<le> q + (b - a)" for p p' q q' r r' :: int
    using that ab by (simp add: algebra_simps)
  have 1: "(a - 1) div 4 \<le> (b - 1) div 4" using ab by (intro zdiv_mono1) simp_all
  have 2: "(a - 1) div 400 \<le> (b - 1) div 400" using ab by (intro zdiv_mono1) simp_all
  from ab div_step [of "b - a" "a - 1"] have 3: "(b - 1) div 100 \<le> (a - 1) div 100 + (b - a)"
    by (simp add: algebra_simps)
  show ?thesis unfolding days_before_year_def by (rule lin [OF 1 2 3])
qed

lemma month_cases:
  "1 \<le> m \<Longrightarrow> m \<le> 12 \<Longrightarrow>
   m = 1 \<or> m = 2 \<or> m = 3 \<or> m = 4 \<or> m = 5 \<or> m = 6 \<or> m = 7 \<or> m = 8 \<or> m = 9 \<or>
   m = 10 \<or> m = 11 \<or> m = (12::int)"
  by arith

lemma day_of_year_bounds:
  assumes "1 \<le> m" "m \<le> 12" "1 \<le> d" "d \<le> days_in_month y m"
  shows "1 \<le> days_before_month y m + d \<and>
         days_before_month y m + d \<le> (if is_leap y then 366 else 365)"
  using month_cases [OF assms(1,2)] assms(3,4)
  by (elim disjE)
     (simp_all add: days_before_month_def days_in_month_def DAYS_BEFORE_MONTH_def
        DAYS_IN_MONTH_def split: if_splits)

lemma ymd2ord_bounds:
  assumes "check_date_fields y m d = Inr ()"
  shows "1 \<le> ymd2ord y m d \<and> ymd2ord y m d \<le> MAXORDINAL"
proof -
  from assms have v: "1 \<le> y" "y \<le> 9999" "1 \<le> m" "m \<le> 12" "1 \<le> d" "d \<le> days_in_month y m"
    by (auto simp: check_date_fields_def MINYEAR_def MAXYEAR_def split: if_splits)
  from day_of_year_bounds [OF v(3,4,5,6)]
  have b: "1 \<le> days_before_month y m + d"
    "days_before_month y m + d \<le> (if is_leap y then 366 else 365)" by simp_all
  have "days_before_year 1 = 0" by (simp add: days_before_year_def)
  with v(1) days_before_year_mono [of 1 y] have lo: "0 \<le> days_before_year y" by simp
  have "days_before_year 10000 = 3652059" by (simp add: days_before_year_def)
  with v(2) days_before_year_mono [of "y + 1" 10000]
  have "days_before_year (y + 1) \<le> 3652059" by simp
  with b(2) have hi: "days_before_year y + (days_before_month y m + d) \<le> 3652059"
    by (simp add: days_before_year_Suc split: if_splits)
  from lo b(1) hi show ?thesis by (simp add: ymd2ord_def MAXORDINAL_def)
qed

lemma date_add_weekend:
  assumes "valid_date b"
  shows "weekday b = 5 \<Longrightarrow> date_add b 2 = Inr (ord2ymd (toordinal b + 2))"
    and "weekday b = 6 \<Longrightarrow> date_add b 1 = Inr (ord2ymd (toordinal b + 1))"
proof -
  from assms have t: "1 \<le> toordinal b" "toordinal b \<le> 3652059"
    using ymd2ord_bounds [of "year b" "month b" "day b"]
    by (simp_all add: valid_date_def toordinal_def MAXORDINAL_def)
  then consider "toordinal b \<le> 3652057" | "toordinal b = 3652058" | "toordinal b = 3652059"
    by linarith
  note c = this
  show "date_add b 2 = Inr (ord2ymd (toordinal b + 2))" if "weekday b = 5"
    using c that t(1) by cases (simp_all add: date_add_def weekday_def MAXORDINAL_def Let_def)
  show "date_add b 1 = Inr (ord2ymd (toordinal b + 1))" if "weekday b = 6"
    using c that t(1) by cases (simp_all add: date_add_def weekday_def MAXORDINAL_def Let_def)
qed

lemma candidate_valid: "candidate today bv = Inr b \<Longrightarrow> valid_date b"
  by (auto simp: candidate_def replace_year_def date_of_def valid_date_def
           split: sum.splits if_splits)

lemma congratulation_returns:
  assumes "valid_date b"
  shows "\<exists>res. congratulation today b = Inr res"
  using date_add_weekend [OF assms] by (simp add: congratulation_def)

lemma find_record_of_key: "n \<in> set (map fst book) \<Longrightarrow> \<exists>r. find_record book n = Some r"
  by (simp add: find_record_def) (meson map_of_eq_None_iff not_Some_eq)

lemma upcoming_loop_total:
  assumes "\<And>n. n \<in> set names \<Longrightarrow> \<exists>r. find_record book n = Some r \<and>
             (\<forall>bv. birthday r = Some bv \<longrightarrow> (\<exists>b. candidate today bv = Inr b))"
  shows "\<exists>bdays. upcoming_loop today names book acc = (Inr bdays, book)"
  using assms
proof (induction names arbitrary: acc)
  case Nil
  then show ?case by simp
next
  case (Cons nm names)
  from Cons.prems [of nm] obtain r where
    r: "find_record book nm = Some r"
    and c: "\<And>bv. birthday r = Some bv \<Longrightarrow> \<exists>b. candidate today bv = Inr b"
    by auto
  have ih: "\<exists>bdays. upcoming_loop today names book acc' = (Inr bdays, book)" for acc'
    by (rule Cons.IH) (simp add: Cons.prems)
  show ?case
  proof (cases "birthday r")
    case None
    with r ih show ?thesis by simp
  next
    case (Some bv)
    from c [OF Some] obtain b where b: "candidate today bv = Inr b" by blast
    from congratulation_returns [OF candidate_valid [OF b]] obtain res where
      res: "congratulation today b = Inr res" by blast
    from r Some b res ih show ?thesis by (cases res) simp_all
  qed
qed

lemma get_upcoming_birthdays_returns:
  "(\<exists>bdays. get_upcoming_birthdays today book = (Inr bdays, book)) \<longleftrightarrow>
   (\<forall>nm r bv. find_record book nm = Some r \<longrightarrow> birthday r = Some bv \<longrightarrow>
      (\<exists>b. candidate today bv = Inr b))"
proof
  assume "\<exists>bdays. get_upcoming_birthdays today book = (Inr bdays, book)"
  then obtain bdays where
    l: "upcoming_loop today (map fst book) book [] = (Inr bdays, book)"
    by (auto simp: get_upcoming_birthdays_def)
  show "\<forall>nm r bv. find_record book nm = Some r \<longrightarrow> birthday r = Some bv \<longrightarrow>
      (\<exists>b. candidate today bv = Inr b)"
  proof (intro allI impI)
    fix nm r bv
    assume r: "find_record book nm = Some r" and bv: "birthday r = Some bv"
    from r have k: "nm \<in> set (map fst book)" by (rule find_record_key)
    from upcoming_loop_returns [OF l k r bv] show "\<exists>b. candidate today bv = Inr b" .
  qed
next
  assume a: "\<forall>nm r bv. find_record book nm = Some r \<longrightarrow> birthday r = Some bv \<longrightarrow>
      (\<exists>b. candidate today bv = Inr b)"
  have "\<exists>bdays. upcoming_loop today (map fst book) book [] = (Inr bdays, book)"
  proof (rule upcoming_loop_total)
    fix n
    assume "n \<in> set (map fst book)"
    from find_record_of_key [OF this] obtain r where "find_record book n = Some r" by blast
    with a show "\<exists>r. find_record book n = Some r \<and>
             (\<forall>bv. birthday r = Some bv \<longrightarrow> (\<exists>b. candidate today bv = Inr b))"
      by blast
  qed
  then show "\<exists>bdays. get_upcoming_birthdays today book = (Inr bdays, book)"
    by (simp add: get_upcoming_birthdays_def)
qed

lemma candidate_returns:
  assumes "valid_date bv" and "year today < 9999" and "1 \<le> year today"
    and "\<not> (month bv = 2 \<and> day bv = 29)"
  shows "\<exists>b. candidate today bv = Inr b"
proof -
  from assms(1) have v: "1 \<le> month bv" "month bv \<le> 12" "1 \<le> day bv"
    "day bv \<le> days_in_month (year bv) (month bv)"
    by (simp_all add: valid_date_def check_date_fields_ok)
  have d: "day bv \<le> days_in_month y (month bv)" for y
    using v(4) assms(4) by (auto simp: days_in_month_def DAYS_IN_MONTH_def split: if_splits)
  from v d assms(2,3) have "check_date_fields (year today) (month bv) (day bv) = Inr ()"
    "check_date_fields (year today + 1) (month bv) (day bv) = Inr ()"
    by (simp_all add: check_date_fields_ok)
  then show ?thesis by (simp add: candidate_def replace_year_def)
qed

lemma get_upcoming_birthdays_error:
  assumes "fst (get_upcoming_birthdays today book) = Inl e"
  shows "\<exists>msg. e = ValueError msg"
proof -
  have cand: "\<exists>msg. e' = ValueError msg" if "candidate today bv = Inl e'" for bv e'
    using that
    by (auto simp: candidate_def replace_year_def check_date_fields_def
             split: sum.splits if_splits)
  have "\<exists>msg. e = ValueError msg"
    if "fst (upcoming_loop today names book acc) = Inl e" "set names \<subseteq> set (map fst book)"
    for names acc
    using that
  proof (induction names arbitrary: acc)
    case Nil
    then show ?case by simp
  next
    case (Cons nm names)
    from Cons.prems(2) have "nm \<in> set (map fst book)" by simp
    from find_record_of_key [OF this] obtain r where r: "find_record book nm = Some r"
      by blast
    from Cons.prems(2) have s: "set names \<subseteq> set (map fst book)" by simp
    show ?case
    proof (cases "birthday r")
      case None
      with r Cons.prems(1) Cons.IH [OF _ s] show ?thesis by simp
    next
      case (Some bv)
      show ?thesis
      proof (cases "candidate today bv")
        case (Inl e')
        with r Some Cons.prems(1) cand [OF Inl] show ?thesis by simp
      next
        case (Inr b)
        from congratulation_returns [OF candidate_valid [OF Inr]] obtain res where
          res: "congratulation today b = Inr res" by blast
        with r Some Inr Cons.prems(1) Cons.IH [OF _ s] show ?thesis by (cases res) simp_all
      qed
    qed
  qed
  with assms show ?thesis by (simp add: get_upcoming_birthdays_def)
qed

section \<open>The command loop\<close>

lemma snd_input_error: "snd (input_error ret res) = snd res"
  by (simp add: input_error_def split: sum.splits error.splits)

lemma stdin_print: "stdin (print s w) = stdin w"
  by (simp add: print_def)

lemma stdin_store: "stdin (store nm r w) = stdin w"
  by (simp add: store_def)

lemma stdin_print_phones: "stdin (print_phones i phs w) = stdin w"
  by (induction phs arbitrary: i w) (simp_all add: stdin_print)

lemma stdin_input: "length (stdin (snd (input prompt w))) \<le> length (stdin w)"
  by (simp add: input_def stdin_print split: list.splits)

lemma stdin_add_contact: "stdin (snd (add_contact args w)) = stdin w"
  by (simp add: add_contact_def add_contact_phone_def snd_input_error stdin_store
           split: list.splits option.splits sum.splits)

lemma stdin_change_phone: "stdin (snd (change_phone nm r phone new_phone w)) = stdin w"
  by (simp add: change_phone_def stdin_store split: sum.splits)

lemma stdin_change_contact: "length (stdin (snd (change_contact args w))) \<le> length (stdin w)"
proof -
  have i: "length (stdin w3) \<le> length (stdin w)"
    if "input msg (print_phones 0 phs (print s w)) = (x, w3)" for msg phs s x w3
    using stdin_input [of msg "print_phones 0 phs (print s w)"] that
    by (simp add: stdin_print_phones stdin_print)
  show ?thesis
    by (auto simp: change_contact_def snd_input_error stdin_change_phone Let_def
             split: list.splits option.splits sum.splits prod.splits dest: i)
qed

lemma stdin_show_contact: "stdin (snd (show_contact args w)) = stdin w"
  by (simp add: show_contact_def snd_input_error split: list.splits option.splits)

lemma stdin_show_all: "stdin (snd (show_all w)) = stdin w"
  by (simp add: show_all_def snd_input_error)

lemma stdin_add_birthday: "stdin (snd (add_birthday args w)) = stdin w"
  by (simp add: add_birthday_def snd_input_error stdin_store
           split: list.splits option.splits sum.splits)

lemma stdin_show_birthday: "stdin (snd (show_birthday args w)) = stdin w"
  by (simp add: show_birthday_def snd_input_error split: list.splits option.splits)

lemma stdin_birthdays: "stdin (snd (birthdays w)) = stdin w"
  by (simp add: birthdays_def snd_input_error split: prod.splits sum.splits)

lemma stdin_print_result: "stdin (snd (print_result res)) = stdin (snd res)"
  by (simp add: print_result_def stdin_print split: sum.splits)

lemma stdin_main_step:
  assumes "main_step w = (Inr b, w')"
  shows "length (stdin w') < length (stdin w)"
proof (cases "stdin w")
  case Nil
  with assms show ?thesis by (simp add: main_step_def input_def)
next
  case (Cons l ls)
  define w1 where "w1 = (print ''Enter a command: '' w)\<lparr>stdin := ls\<rparr>"
  have w1: "stdin w1 = ls" by (simp add: w1_def)
  have i: "input ''Enter a command: '' w = (Inr l, w1)"
    using Cons by (simp add: input_def w1_def)
  have p: "snd (parse_input l w1) = w1"
    by (simp add: parse_input_def snd_input_error split: list.splits)
  obtain r where r: "parse_input l w1 = (r, w1)"
    using p by (cases "parse_input l w1") simp
  note h = stdin_add_contact stdin_change_contact stdin_show_contact stdin_show_all
    stdin_add_birthday stdin_show_birthday stdin_birthdays
  have "length (stdin w') \<le> length (stdin w1)"
    using assms i r
    by (auto simp: main_step_def stdin_print_result stdin_print save_data_def h
             split: sum.splits prod.splits if_splits
             dest!: arg_cong [where f = "\<lambda>x. stdin (snd x)"])
       (metis stdin_change_contact)
  with w1 Cons show ?thesis by simp
qed

function main_loop :: "world \<Rightarrow> (error + unit) \<times> world" where
  "main_loop w =
     (case main_step w of
        (Inl e, w') \<Rightarrow> (Inl e, w')
      | (Inr go_on, w') \<Rightarrow> if go_on then main_loop w' else (Inr (), w'))"
  by pat_completeness auto
termination
  by (relation "measure (\<lambda>w. length (stdin w))") (auto dest: stdin_main_step [OF sym])

definition main :: "world \<Rightarrow> (error + unit) \<times> world" where
  "main w = main_loop (print ''Welcome to the assistant bot!'' (w\<lparr>address_book := load_data w\<rparr>))"


lemmas command_defs =
  main_def main_step_def input_def print_def parse_input_def str_split_def strip_def lower_def
  lower_char_def is_space_def unpack_def input_error_def print_result_def load_data_def
  save_data_def find_record_def store_def

section \<open>Claims about the command loop\<close>

text \<open>
  C8. The claim: whatever a command raises is caught where the commands are dispatched
  and turned into a message, so that the loop goes on after every command but
  \<^verbatim>\<open>close\<close> and \<^verbatim>\<open>exit\<close>, also for \<^verbatim>\<open>show-birthday\<close> on a contact that is absent or
  has no birthday. \<^verbatim>\<open>show_birthday\<close> reads \<^verbatim>\<open>record.birthday.value\<close> without the
  \<^verbatim>\<open>if record\<close> test of the other handlers; on an absent contact, and on a contact
  without a birthday, that is an \<^verbatim>\<open>AttributeError\<close>, which \<^verbatim>\<open>input_error\<close> does not
  catch: the process ends there, and the commands that follow are never read.
\<close>

theorem show_birthday_ends_the_process:
  "main \<lparr>address_book = [], clock = scenario_today,
         stdin = [''show-birthday Bob'', ''hello'', ''exit''], stdout = [], disk = None\<rparr>
   = (Inl (AttributeError ''birthday''),
      \<lparr>address_book = [], clock = scenario_today, stdin = [''hello'', ''exit''],
       stdout = [''Welcome to the assistant bot!'', ''Enter a command: ''], disk = None\<rparr>) \<and>
   main \<lparr>address_book = [], clock = scenario_today,
         stdin = [''show-birthday Bob'', ''hello'', ''exit''], stdout = [],
         disk = Some [(''Bob'', \<lparr>name = ''Bob'', phones = [''1111111111''], birthday = None\<rparr>)]\<rparr>
   = (Inl (AttributeError ''value''),
      \<lparr>address_book = [(''Bob'', \<lparr>name = ''Bob'', phones = [''1111111111''], birthday = None\<rparr>)],
       clock = scenario_today, stdin = [''hello'', ''exit''],
       stdout = [''Welcome to the assistant bot!'', ''Enter a command: ''],
       disk = Some [(''Bob'', \<lparr>name = ''Bob'', phones = [''1111111111''], birthday = None\<rparr>)]\<rparr>)"
  by (simp add: command_defs show_birthday_def main_loop.simps)

end
